theory Spec2Isabelle
  imports Complex_Main "HOL-Library.Sublist" "HOL-Library.AList"
begin

section \<open>Data model\<close>

text \<open>
  The value returned by \<^verbatim>\<open>await c.req.json()\<close>: any JSON value. Numbers are the finite
  doubles of JavaScript, each of which is a rational; only their being zero matters below.
\<close>

datatype json =
    JNull
  | JBool bool
  | JNum rat
  | JStr string
  | JArr "json list"
  | JObj "(string \<times> json) list"

text \<open>
  \<^verbatim>\<open>interface Bookmark { id; title; url; userId; createdAt }\<close> (App.tsx), and the object
  literal built by the POST handler. The handler copies \<^verbatim>\<open>url\<close> and \<^verbatim>\<open>title\<close> from the
  request body without checking that they are strings, so they are JSON values here.
  The field \<^verbatim>\<open>id\<close> is named \<open>bookmark_id\<close>, since \<open>id\<close> is the identity function of HOL.
\<close>

record bookmark =
  bookmark_id :: string
  url :: json
  title :: json
  userId :: string
  createdAt :: string

text \<open>
  \<^verbatim>\<open>interface BookmarkEvent { type; bookmark?; bookmarkId?; userId }\<close> (App.tsx). The
  payload of a broadcast is cast to this interface without a check, so \<^verbatim>\<open>type\<close> is any
  string here.
\<close>

record bookmark_event =
  event_type :: string
  event_bookmark :: "bookmark option"
  event_bookmarkId :: "string option"
  event_userId :: string

subsection \<open>What the server's runtime supplies\<close>

text \<open>
  The reply of \<^verbatim>\<open>supabase.auth.getUser(accessToken)\<close>, destructured by the handlers as
  \<^verbatim>\<open>{ data: { user }, error: authError }\<close>.
\<close>

record auth_user =
  user_id :: string

record user_response =
  data_user :: "auth_user option"
  auth_error :: "string option"

text \<open>
  One request is served in an environment: the identity provider (\<open>getUser\<close>), the value
  \<^verbatim>\<open>crypto.randomUUID()\<close> returns during the request, the value of
  \<^verbatim>\<open>new Date().toISOString()\<close>, and the error the storage backend raises during the
  request, if it raises one.
\<close>

record env =
  getUser :: "string \<Rightarrow> user_response"
  randomUUID :: string
  toISOString :: string
  kv_failure :: "string option"

text \<open>The request as the handlers read it: the Authorization header and the parsed body
  (\<open>None\<close> when \<^verbatim>\<open>c.req.json()\<close> throws). The path parameter \<^verbatim>\<open>:id\<close> is part of the route.\<close>

record request =
  authorization :: "string option"
  json_body :: "json option"

datatype route =
    GET_bookmarks
  | POST_bookmarks
  | DELETE_bookmarks string

text \<open>What a \<^verbatim>\<open>catch (error)\<close> block of a handler can catch.\<close>

datatype exn =
    Body_not_json
  | Destructure_null
  | Kv_error string

text \<open>The argument of \<^verbatim>\<open>c.json(...)\<close> and its status (200 when not given).\<close>

datatype payload =
    Json_bookmarks "bookmark list"
  | Json_bookmark bookmark
  | Json_success bool
  | Json_error string
  | Json_error_details string exn

record response =
  status :: nat
  payload :: payload

definition json :: "payload \<Rightarrow> response" where
  "json p = \<lparr>status = 200, payload = p\<rparr>"

definition json_status :: "payload \<Rightarrow> nat \<Rightarrow> response" where
  "json_status p s = \<lparr>status = s, payload = p\<rparr>"

section \<open>Key-value store adapter\<close>

text \<open>
  Modelled from the spec: the module \<^verbatim>\<open>./kv_store.tsx\<close> that the server imports as \<^verbatim>\<open>kv\<close>
  is missing. Its contract, section 4.1: \<^verbatim>\<open>set(key, value)\<close> upserts a value under an exact
  key; \<^verbatim>\<open>del(key)\<close> removes a key idempotently (no error if absent);
  \<^verbatim>\<open>getByPrefix(prefix)\<close> returns all key/value pairs whose key starts with \<^verbatim>\<open>prefix\<close>, order
  unspecified (here: the order of the table). Sections 4.2 and 7: a storage operation can
  fail, and the failure reaches the handler as an exception; a failed operation changes
  no row.

  The table is a list of rows; \<open>set\<close> replaces the value of a key that is present and
  adds a row otherwise, so the keys of a table built from the empty one stay distinct.
  \<open>calls\<close> records every call the adapter receives, so that a handler that returns the
  store as it was has neither read nor written it.
\<close>

datatype 'v kv_call =
    Call_set string 'v
  | Call_del string
  | Call_getByPrefix string

record 'v kv_store =
  rows :: "(string \<times> 'v) list"
  calls :: "'v kv_call list"

definition kv_empty :: "'v kv_store" where
  "kv_empty = \<lparr>rows = [], calls = []\<rparr>"

definition kv_set ::
  "string option \<Rightarrow> string \<Rightarrow> 'v \<Rightarrow> 'v kv_store \<Rightarrow> (string + unit) \<times> 'v kv_store" where
  "kv_set failure key v st =
     (let st' = st\<lparr>calls := calls st @ [Call_set key v]\<rparr> in
      case failure of
        Some e \<Rightarrow> (Inl e, st')
      | None \<Rightarrow> (Inr (), st'\<lparr>rows := AList.update key v (rows st)\<rparr>))"

definition kv_del ::
  "string option \<Rightarrow> string \<Rightarrow> 'v kv_store \<Rightarrow> (string + unit) \<times> 'v kv_store" where
  "kv_del failure key st =
     (let st' = st\<lparr>calls := calls st @ [Call_del key]\<rparr> in
      case failure of
        Some e \<Rightarrow> (Inl e, st')
      | None \<Rightarrow> (Inr (), st'\<lparr>rows := AList.delete key (rows st)\<rparr>))"

definition kv_getByPrefix ::
  "string option \<Rightarrow> string \<Rightarrow> 'v kv_store \<Rightarrow> (string + (string \<times> 'v) list) \<times> 'v kv_store" where
  "kv_getByPrefix failure pre st =
     (let st' = st\<lparr>calls := calls st @ [Call_getByPrefix pre]\<rparr> in
      case failure of
        Some e \<Rightarrow> (Inl e, st')
      | None \<Rightarrow> (Inr (filter (\<lambda>(k, v). prefix pre k) (rows st)), st'))"

section \<open>Bookmark service (supabase/functions/server/index.tsx)\<close>

subsection \<open>JavaScript helpers\<close>

text \<open>\<^verbatim>\<open>s.split(c)\<close> for a one-character separator: every occurrence splits, and two
  adjacent separators give an empty piece.\<close>

fun split_on :: "char \<Rightarrow> string \<Rightarrow> string list" where
  "split_on c [] = [[]]"
| "split_on c (x # xs) =
     (if x = c then [] # split_on c xs
      else (case split_on c xs of
              [] \<Rightarrow> [[x]]
            | w # ws \<Rightarrow> (x # w) # ws))"

text \<open>\<^verbatim>\<open>xs[1]\<close>: the second element, or \<^verbatim>\<open>undefined\<close>.\<close>

fun index1 :: "'a list \<Rightarrow> 'a option" where
  "index1 (x # y # ys) = Some y"
| "index1 _ = None"

text \<open>Truthiness of a JSON value; \<^verbatim>\<open>undefined\<close> (a missing property) is falsy.\<close>

fun truthy :: "json \<Rightarrow> bool" where
  "truthy JNull = False"
| "truthy (JBool b) = b"
| "truthy (JNum q) = (q \<noteq> 0)"
| "truthy (JStr s) = (s \<noteq> [])"
| "truthy (JArr xs) = True"
| "truthy (JObj fs) = True"

text \<open>
  \<^verbatim>\<open>body.url\<close> and \<^verbatim>\<open>body.title\<close> for a body that is not \<^verbatim>\<open>null\<close>: the property of an
  object (\<^verbatim>\<open>JSON.parse\<close> keeps the last of duplicate keys), \<^verbatim>\<open>undefined\<close> on numbers,
  booleans, strings and arrays, which have no property of these two names.
\<close>

fun property :: "json \<Rightarrow> string \<Rightarrow> json option" where
  "property (JObj fs) k = map_of (rev fs) k"
| "property _ k = None"

text \<open>\<^verbatim>\<open>const { url, title } = body\<close>: a TypeError when the body is \<^verbatim>\<open>null\<close>.\<close>

definition destructure :: "json \<Rightarrow> (json option \<times> json option) option" where
  "destructure body =
     (if body = JNull then None
      else Some (property body ''url'', property body ''title''))"

subsection \<open>Storage keys\<close>

text \<open>The template literals \<^verbatim>\<open>`bookmarks:${user.id}:`\<close> and
  \<^verbatim>\<open>`bookmarks:${user.id}:${bookmarkId}`\<close>.\<close>

definition bookmarks_prefix :: "string \<Rightarrow> string" where
  "bookmarks_prefix uid = ''bookmarks:'' @ uid @ '':''"

definition bookmark_key :: "string \<Rightarrow> string \<Rightarrow> string" where
  "bookmark_key uid bid = ''bookmarks:'' @ uid @ '':'' @ bid"

subsection \<open>Authentication, the first lines of each handler\<close>

text \<open>\<^verbatim>\<open>c.req.header('Authorization')?.split(' ')[1]\<close>\<close>

definition accessToken :: "request \<Rightarrow> string option" where
  "accessToken req =
     (case authorization req of
        None \<Rightarrow> None
      | Some h \<Rightarrow> index1 (split_on CHR '' '' h))"

text \<open>\<^verbatim>\<open>authError || !user?.id\<close>\<close>

definition unauthorized :: "user_response \<Rightarrow> bool" where
  "unauthorized r =
     (auth_error r \<noteq> None \<or>
      (case data_user r of None \<Rightarrow> True | Some u \<Rightarrow> user_id u = []))"

text \<open>
  The three handlers begin with the same lines: read the token, answer 401 when there is
  none (\<^verbatim>\<open>!accessToken\<close>: undefined or empty), ask the identity provider, answer 401 when
  it reports an error or no user id. \<open>Inr\<close> carries \<^verbatim>\<open>user.id\<close>.
\<close>

definition verified_user :: "env \<Rightarrow> request \<Rightarrow> response + string" where
  "verified_user e req =
     (case accessToken req of
        None \<Rightarrow> Inl (json_status (Json_error ''No access token provided'') 401)
      | Some token \<Rightarrow>
          if token = [] then Inl (json_status (Json_error ''No access token provided'') 401)
          else
            (let r = getUser e token in
             if unauthorized r then Inl (json_status (Json_error ''Unauthorized'') 401)
             else (case data_user r of
                     None \<Rightarrow> Inl (json_status (Json_error ''Unauthorized'') 401)
                   | Some u \<Rightarrow> Inr (user_id u))))"

subsection \<open>The handlers\<close>

type_synonym store = "bookmark kv_store"

text \<open>\<^verbatim>\<open>app.get("/make-server-04c71c6f/bookmarks", ...)\<close>\<close>

definition get_bookmarks :: "env \<Rightarrow> request \<Rightarrow> store \<Rightarrow> response \<times> store" where
  "get_bookmarks e req st =
     (case verified_user e req of
        Inl denied \<Rightarrow> (denied, st)
      | Inr uid \<Rightarrow>
          (case kv_getByPrefix (kv_failure e) (bookmarks_prefix uid) st of
             (Inl err, st') \<Rightarrow>
               (json_status (Json_error_details ''Failed to fetch bookmarks'' (Kv_error err)) 500, st')
           | (Inr bookmarks, st') \<Rightarrow>
               (json (Json_bookmarks (map snd bookmarks)), st')))"

text \<open>\<^verbatim>\<open>app.post("/make-server-04c71c6f/bookmarks", ...)\<close>. A property that is
  \<^verbatim>\<open>undefined\<close> is falsy, so only a body with both properties passes the check.\<close>

definition post_bookmarks :: "env \<Rightarrow> request \<Rightarrow> store \<Rightarrow> response \<times> store" where
  "post_bookmarks e req st =
     (case verified_user e req of
        Inl denied \<Rightarrow> (denied, st)
      | Inr uid \<Rightarrow>
          (case json_body req of
             None \<Rightarrow>
               (json_status (Json_error_details ''Failed to add bookmark'' Body_not_json) 500, st)
           | Some body \<Rightarrow>
               (case destructure body of
                  None \<Rightarrow>
                    (json_status (Json_error_details ''Failed to add bookmark'' Destructure_null) 500, st)
                | Some (Some u, Some t) \<Rightarrow>
                    if \<not> truthy u \<or> \<not> truthy t
                    then (json_status (Json_error ''URL and title are required'') 400, st)
                    else
                      (let bookmarkId = randomUUID e;
                           bookmark = \<lparr>bookmark_id = bookmarkId, url = u, title = t,
                                       userId = uid, createdAt = toISOString e\<rparr>
                       in case kv_set (kv_failure e) (bookmark_key uid bookmarkId) bookmark st of
                            (Inl err, st') \<Rightarrow>
                              (json_status
                                 (Json_error_details ''Failed to add bookmark'' (Kv_error err)) 500, st')
                          | (Inr _, st') \<Rightarrow> (json (Json_bookmark bookmark), st'))
                | Some _ \<Rightarrow>
                    (json_status (Json_error ''URL and title are required'') 400, st))))"

text \<open>\<^verbatim>\<open>app.delete("/make-server-04c71c6f/bookmarks/:id", ...)\<close>\<close>

definition delete_bookmarks :: "env \<Rightarrow> string \<Rightarrow> request \<Rightarrow> store \<Rightarrow> response \<times> store" where
  "delete_bookmarks e bookmarkId req st =
     (case verified_user e req of
        Inl denied \<Rightarrow> (denied, st)
      | Inr uid \<Rightarrow>
          (case kv_del (kv_failure e) (bookmark_key uid bookmarkId) st of
             (Inl err, st') \<Rightarrow>
               (json_status (Json_error_details ''Failed to delete bookmark'' (Kv_error err)) 500, st')
           | (Inr _, st') \<Rightarrow> (json (Json_success True), st')))"

text \<open>The router, and a sequence of requests served one after the other.\<close>

fun serve :: "env \<Rightarrow> route \<Rightarrow> request \<Rightarrow> store \<Rightarrow> response \<times> store" where
  "serve e GET_bookmarks req st = get_bookmarks e req st"
| "serve e POST_bookmarks req st = post_bookmarks e req st"
| "serve e (DELETE_bookmarks bookmarkId) req st = delete_bookmarks e bookmarkId req st"

type_synonym call = "env \<times> route \<times> request"

fun run :: "call list \<Rightarrow> store \<Rightarrow> store" where
  "run [] st = st"
| "run ((e, rt, req) # cs) st = run cs (snd (serve e rt req st))"

section \<open>Client state store (src/app/App.tsx)\<close>

text \<open>
  The callback of \<^verbatim>\<open>.on('broadcast', { event: 'bookmark-change' }, ...)\<close> in
  \<^verbatim>\<open>setupRealtimeSubscription\<close>, as a function of the session user's id, the event and the
  list held by \<^verbatim>\<open>setBookmarks\<close>. A \<^verbatim>\<open>bookmarkId\<close> that is the empty string is falsy.
\<close>

definition on_broadcast :: "string \<Rightarrow> bookmark_event \<Rightarrow> bookmark list \<Rightarrow> bookmark list" where
  "on_broadcast uid event prev =
     (if event_userId event \<noteq> uid then prev
      else if event_type event = ''added'' \<and> event_bookmark event \<noteq> None then
        (case event_bookmark event of
           None \<Rightarrow> prev
         | Some b \<Rightarrow>
             if list_ex (\<lambda>x. bookmark_id x = bookmark_id b) prev then prev
             else b # prev)
      else if event_type event = ''deleted''
              \<and> (case event_bookmarkId event of None \<Rightarrow> False | Some i \<Rightarrow> i \<noteq> []) then
        (case event_bookmarkId event of
           None \<Rightarrow> prev
         | Some i \<Rightarrow> filter (\<lambda>b. bookmark_id b \<noteq> i) prev)
      else prev)"

section \<open>Notions used to state the properties\<close>

text \<open>
  The caller of a request is authenticated as \<open>uid\<close>: the header carries a non-empty
  token, and the identity provider answers it with no error and the user id \<open>uid\<close>.
\<close>

definition authenticated_as :: "env \<Rightarrow> request \<Rightarrow> string \<Rightarrow> bool" where
  "authenticated_as e req uid =
     (case accessToken req of
        None \<Rightarrow> False
      | Some token \<Rightarrow>
          token \<noteq> [] \<and> auth_error (getUser e token) = None \<and>
          (case data_user (getUser e token) of
             None \<Rightarrow> False
           | Some u \<Rightarrow> user_id u = uid \<and> uid \<noteq> []))"

text \<open>Every stored record sits under the key its own fields give.\<close>

definition key_agrees :: "store \<Rightarrow> bool" where
  "key_agrees st =
     (\<forall>(k, b) \<in> set (rows st). k = ''bookmarks:'' @ userId b @ '':'' @ bookmark_id b)"

text \<open>
  What a successful List of \<open>uid\<close> returns from a store, and the ids of all stored
  records. Every stored record sits under the key of its own fields, and every owner's
  id has the length \<open>n\<close>.
\<close>

definition stored_for :: "string \<Rightarrow> store \<Rightarrow> bookmark list" where
  "stored_for uid st = map snd (filter (\<lambda>(k, v). prefix (bookmarks_prefix uid) k) (rows st))"

definition stored_ids :: "store \<Rightarrow> string list" where
  "stored_ids st = map (\<lambda>(k, b). bookmark_id b) (rows st)"

definition well_keyed :: "nat \<Rightarrow> store \<Rightarrow> bool" where
  "well_keyed n st =
     (\<forall>(k, b) \<in> set (rows st).
        k = bookmark_key (userId b) (bookmark_id b) \<and> length (userId b) = n)"

text \<open>
  The history of a sequence of requests: each request with the response it got. From the
  history alone, in the words of the specification: the bookmarks previously created (a
  Create answered with the record) and not deleted (no later Delete of that id answered
  with success) by a caller.
\<close>

fun responses :: "call list \<Rightarrow> store \<Rightarrow> (call \<times> response) list" where
  "responses [] st = []"
| "responses ((e, rt, req) # cs) st =
     ((e, rt, req), fst (serve e rt req st)) # responses cs (snd (serve e rt req st))"

fun created :: "route \<Rightarrow> response \<Rightarrow> bookmark option" where
  "created POST_bookmarks r = (case payload r of Json_bookmark b \<Rightarrow> Some b | _ \<Rightarrow> None)"
| "created _ r = None"

fun deleted :: "route \<Rightarrow> response \<Rightarrow> string option" where
  "deleted (DELETE_bookmarks i) r = (if payload r = Json_success True then Some i else None)"
| "deleted _ r = None"

fun replay :: "string \<Rightarrow> (call \<times> response) list \<Rightarrow> bookmark list \<Rightarrow> bookmark list" where
  "replay uid [] acc = acc"
| "replay uid (((e, rt, req), r) # h) acc =
     replay uid h
       (if authenticated_as e req uid then
          (case created rt r of
             Some b \<Rightarrow> acc @ [b]
           | None \<Rightarrow>
               (case deleted rt r of
                  Some i \<Rightarrow> filter (\<lambda>b. bookmark_id b \<noteq> i) acc
                | None \<Rightarrow> acc))
        else acc)"

definition created_not_deleted :: "string \<Rightarrow> (call \<times> response) list \<Rightarrow> bookmark list" where
  "created_not_deleted uid h = replay uid h []"

text \<open>The identifiers the server generated for the records it created, in order.\<close>

fun created_ids :: "(call \<times> response) list \<Rightarrow> string list" where
  "created_ids [] = []"
| "created_ids (((e, rt, req), r) # h) =
     (case created rt r of
        Some b \<Rightarrow> bookmark_id b # created_ids h
      | None \<Rightarrow> created_ids h)"

subsection \<open>A concrete scenario\<close>

text \<open>An identity provider that knows three tokens, for the users \<open>a\<close>, \<open>a:b\<close> and \<open>c\<close>.\<close>

definition example_provider :: "string \<Rightarrow> user_response" where
  "example_provider token =
     (if token = ''ta'' then \<lparr>data_user = Some \<lparr>user_id = ''a''\<rparr>, auth_error = None\<rparr>
      else if token = ''tb'' then \<lparr>data_user = Some \<lparr>user_id = ''a:b''\<rparr>, auth_error = None\<rparr>
      else if token = ''tc'' then \<lparr>data_user = Some \<lparr>user_id = ''c''\<rparr>, auth_error = None\<rparr>
      else \<lparr>data_user = None, auth_error = Some ''invalid JWT''\<rparr>)"

definition example_env :: "string \<Rightarrow> string option \<Rightarrow> env" where
  "example_env uuid failure =
     \<lparr>getUser = example_provider, randomUUID = uuid,
      toISOString = ''2026-01-01T00:00:00.000Z'', kv_failure = failure\<rparr>"

definition bearer :: "string \<Rightarrow> json option \<Rightarrow> request" where
  "bearer token b = \<lparr>authorization = Some (''Bearer '' @ token), json_body = b\<rparr>"

definition no_header :: request where
  "no_header = \<lparr>authorization = None, json_body = None\<rparr>"

definition example_body :: json where
  "example_body =
     JObj [(''url'', JStr ''https://x.com''), (''title'', JStr ''X''), (''userId'', JStr ''c'')]"

definition example_bookmark :: "string \<Rightarrow> string \<Rightarrow> bookmark" where
  "example_bookmark uid bid =
     \<lparr>bookmark_id = bid, url = JStr ''https://x.com'', title = JStr ''X'', userId = uid,
      createdAt = ''2026-01-01T00:00:00.000Z''\<rparr>"

definition example_added :: bookmark_event where
  "example_added =
     \<lparr>event_type = ''added'', event_bookmark = Some (example_bookmark ''a'' ''g1''),
      event_bookmarkId = None, event_userId = ''a''\<rparr>"

definition example_renamed :: bookmark_event where
  "example_renamed =
     \<lparr>event_type = ''renamed'', event_bookmark = Some (example_bookmark ''a'' ''g1''),
      event_bookmarkId = Some ''g2'', event_userId = ''a''\<rparr>"

text \<open>
  Two users \<open>a\<close> and \<open>c\<close> create and delete in turn: \<open>a\<close> creates \<open>g1\<close> and \<open>g3\<close> and deletes
  \<open>g1\<close>; \<open>c\<close> creates \<open>g2\<close> and asks to delete \<open>g3\<close>, which it does not own.
\<close>

definition example_trace :: "call list" where
  "example_trace =
     [(example_env ''g1'' None, POST_bookmarks, bearer ''ta'' (Some example_body)),
      (example_env ''g2'' None, POST_bookmarks, bearer ''tc'' (Some example_body)),
      (example_env ''g3'' None, POST_bookmarks, bearer ''ta'' (Some example_body)),
      (example_env ''g4'' None, DELETE_bookmarks ''g1'', bearer ''ta'' None),
      (example_env ''g5'' None, DELETE_bookmarks ''g3'', bearer ''tc'' None)]"

section \<open>Authentication\<close>

lemma verified_user_iff: "verified_user e req = Inr uid \<longleftrightarrow> authenticated_as e req uid"
  by (auto simp: verified_user_def authenticated_as_def unauthorized_def Let_def
           split: option.splits)

lemma verified_user_denied: "verified_user e req = Inl r \<Longrightarrow> status r = 401"
  by (auto simp: verified_user_def Let_def json_status_def split: option.splits if_splits)

lemma authenticated_as_unique:
  "authenticated_as e req u \<Longrightarrow> authenticated_as e req u' \<Longrightarrow> u = u'"
  by (auto simp: authenticated_as_def split: option.splits)

lemma example_tokens:
  "authenticated_as (example_env g f) (bearer ''ta'' b) ''a''"
  "authenticated_as (example_env g f) (bearer ''tb'' b) ''a:b''"
  "authenticated_as (example_env g f) (bearer ''tc'' b) ''c''"
  by (simp_all add: authenticated_as_def accessToken_def bearer_def example_env_def
        example_provider_def)

text \<open>
  Claim C4. For every request to List, Create or Delete, if the bearer credential is
  missing (no Authorization header, or no non-empty second word in it) or fails
  verification (the identity provider reports an error or no user id), the response has
  status 401 and the store is returned as it was: its rows are the same and the adapter
  has received no call, so it was neither read nor written.
\<close>

theorem unauthenticated_request_denied:
  assumes "authorization req = None
         \<or> accessToken req = None
         \<or> accessToken req = Some []
         \<or> (\<exists>token. accessToken req = Some token \<and> unauthorized (getUser e token))"
  shows "status (fst (serve e rt req st)) = 401 \<and> snd (serve e rt req st) = st"
proof -
  have "\<exists>r. verified_user e req = Inl r \<and> status r = 401"
    using assms
    by (cases "accessToken req")
       (auto simp: verified_user_def accessToken_def json_status_def Let_def)
  then obtain r where "verified_user e req = Inl r" "status r = 401"
    by blast
  then show ?thesis
    by (cases rt) (simp_all add: get_bookmarks_def post_bookmarks_def delete_bookmarks_def)
qed

theorem unauthenticated_request_denied_witness:
  "authorization no_header = None
   \<and> status (fst (serve (example_env ''g1'' None) POST_bookmarks no_header kv_empty)) = 401
   \<and> snd (serve (example_env ''g1'' None) POST_bookmarks no_header kv_empty) = kv_empty
   \<and> unauthorized (getUser (example_env ''g1'' None) ''stale'')
   \<and> status (fst (serve (example_env ''g1'' None) (DELETE_bookmarks ''g1'')
                (bearer ''stale'' None) kv_empty)) = 401"
proof -
  have h1: "authorization no_header = None"
    by (simp add: no_header_def)
  have h2: "accessToken (bearer ''stale'' None) = Some ''stale''"
    by (simp add: accessToken_def bearer_def)
  have h3: "unauthorized (getUser (example_env ''g1'' None) ''stale'')"
    by (simp add: unauthorized_def example_env_def example_provider_def)
  show ?thesis
    using h1 h3
      unauthenticated_request_denied [of no_header "example_env ''g1'' None" POST_bookmarks kv_empty]
      unauthenticated_request_denied [of "bearer ''stale'' None" "example_env ''g1'' None"
        "DELETE_bookmarks ''g1''" kv_empty] h2
    by blast
qed

section \<open>Create\<close>

text \<open>
  Claim C2. For every valid create request (authenticated caller; \<^verbatim>\<open>url\<close> and \<^verbatim>\<open>title\<close>
  present and truthy, in particular non-empty strings), whatever else the body holds
  (an id, an owner field): when the storage write succeeds, the response carries the
  record made of the server's identifier and time stamp, the two fields of the body and
  the authenticated caller's id as \<^verbatim>\<open>userId\<close>, the one call the handler makes to the
  adapter is \<^verbatim>\<open>set\<close> of that same record under the key of caller and id, and the store
  then holds it there. When the storage write fails, the response is the 500 failure and
  no row has changed.
\<close>

theorem create_returns_stored_record:
  assumes "authenticated_as e req uid"
    and "json_body req = Some body"
    and "property body ''url'' = Some u" and "truthy u"
    and "property body ''title'' = Some t" and "truthy t"
  shows "case kv_failure e of
           None \<Rightarrow>
             (let b = \<lparr>bookmark_id = randomUUID e, url = u, title = t,
                       userId = uid, createdAt = toISOString e\<rparr>
              in fst (post_bookmarks e req st) = json (Json_bookmark b)
               \<and> userId b = uid
               \<and> calls (snd (post_bookmarks e req st))
                   = calls st @ [Call_set (bookmark_key uid (bookmark_id b)) b]
               \<and> map_of (rows (snd (post_bookmarks e req st)))
                     (bookmark_key uid (bookmark_id b)) = Some b)
         | Some err \<Rightarrow>
             fst (post_bookmarks e req st)
               = json_status (Json_error_details ''Failed to add bookmark'' (Kv_error err)) 500
             \<and> rows (snd (post_bookmarks e req st)) = rows st"
proof -
  have v: "verified_user e req = Inr uid"
    using assms(1) by (simp add: verified_user_iff)
  have d: "destructure body = Some (Some u, Some t)"
    using assms(3,5) by (auto simp: destructure_def)
  show ?thesis
    using v d assms(2,4,6)
    by (simp add: post_bookmarks_def kv_set_def Let_def update_Some_unfold split: option.splits)
qed

theorem create_returns_stored_record_witness:
  "authenticated_as (example_env ''g1'' None) (bearer ''ta'' (Some example_body)) ''a''
   \<and> property example_body ''userId'' = Some (JStr ''c'')
   \<and> fst (post_bookmarks (example_env ''g1'' None) (bearer ''ta'' (Some example_body)) kv_empty)
       = json (Json_bookmark (example_bookmark ''a'' ''g1''))
   \<and> map_of (rows (snd (post_bookmarks (example_env ''g1'' None)
                (bearer ''ta'' (Some example_body)) kv_empty))) (bookmark_key ''a'' ''g1'')
       = Some (example_bookmark ''a'' ''g1'')"
proof -
  have h1: "authenticated_as (example_env ''g1'' None) (bearer ''ta'' (Some example_body)) ''a''"
    by (rule example_tokens)
  have h2: "json_body (bearer ''ta'' (Some example_body)) = Some example_body"
    by (simp add: bearer_def)
  have h3: "property example_body ''url'' = Some (JStr ''https://x.com'')"
    and h4: "truthy (JStr ''https://x.com'')"
    and h5: "property example_body ''title'' = Some (JStr ''X'')"
    and h6: "truthy (JStr ''X'')"
    and h7: "property example_body ''userId'' = Some (JStr ''c'')"
    by (simp_all add: example_body_def)
  show ?thesis
    using h1 h7 create_returns_stored_record [OF h1 h2 h3 h4 h5 h6, of kv_empty]
    by (simp add: example_env_def example_bookmark_def Let_def)
qed




section \<open>Delete\<close>

text \<open>
  Claim C5. Delete is idempotent: for every authenticated caller, every bookmark id and
  every store (whether or not it holds that id), when the storage backend does not fail,
  the same Delete request issued twice is answered \<^verbatim>\<open>{success: true}\<close> both times, and
  the rows after the second delete are the rows after the first.
\<close>

theorem delete_idempotent:
  assumes "authenticated_as e1 req uid" and "kv_failure e1 = None"
    and "authenticated_as e2 req uid" and "kv_failure e2 = None"
  shows "fst (delete_bookmarks e1 i req st) = json (Json_success True)
       \<and> fst (delete_bookmarks e2 i req (snd (delete_bookmarks e1 i req st)))
           = json (Json_success True)
       \<and> rows (snd (delete_bookmarks e2 i req (snd (delete_bookmarks e1 i req st))))
           = rows (snd (delete_bookmarks e1 i req st))"
proof -
  have v: "verified_user e1 req = Inr uid" "verified_user e2 req = Inr uid"
    using assms by (simp_all add: verified_user_iff)
  show ?thesis
    using v assms(2,4) by (simp add: delete_bookmarks_def kv_del_def Let_def delete_idem)
qed

theorem delete_idempotent_witness:
  "authenticated_as (example_env ''g1'' None) (bearer ''ta'' None) ''a''
   \<and> kv_failure (example_env ''g1'' None) = None
   \<and> fst (delete_bookmarks (example_env ''g1'' None) ''nonexistent'' (bearer ''ta'' None) kv_empty)
       = json (Json_success True)
   \<and> fst (delete_bookmarks (example_env ''g1'' None) ''nonexistent'' (bearer ''ta'' None)
        (snd (delete_bookmarks (example_env ''g1'' None) ''nonexistent'' (bearer ''ta'' None)
           kv_empty)))
       = json (Json_success True)"
proof -
  have a: "authenticated_as (example_env ''g1'' None) (bearer ''ta'' None) ''a''"
    by (rule example_tokens)
  have f: "kv_failure (example_env ''g1'' None) = None"
    by (simp add: example_env_def)
  show ?thesis
    using a f delete_idempotent [OF a f a f, of "''nonexistent''" kv_empty]
    by simp
qed

section \<open>List\<close>

text \<open>
  Claim C9, as the specification states it (the only failure of GET /bookmarks is 401,
  every other outcome is the success result), does not hold: an authenticated request
  served while the storage read fails is answered by the handler's \<^verbatim>\<open>catch\<close> block with
  status 500.
\<close>

theorem get_bookmarks_storage_failure:
  "status (fst (get_bookmarks (example_env ''g1'' (Some ''connection refused''))
                  (bearer ''ta'' None) kv_empty)) = 500
   \<and> payload (fst (get_bookmarks (example_env ''g1'' (Some ''connection refused''))
                  (bearer ''ta'' None) kv_empty))
       = Json_error_details ''Failed to fetch bookmarks'' (Kv_error ''connection refused'')"
proof -
  have "verified_user (example_env ''g1'' (Some ''connection refused'')) (bearer ''ta'' None)
          = Inr ''a''"
    by (simp add: verified_user_iff example_tokens)
  then show ?thesis
    by (simp add: get_bookmarks_def kv_getByPrefix_def Let_def json_status_def example_env_def)
qed

text \<open>
  Claim C9, amended. Every request to GET /bookmarks has one of three outcomes: 401
  unauthorized; the 500 result \<^verbatim>\<open>Failed to fetch bookmarks\<close>, and then the storage read has
  failed; or the success result \<^verbatim>\<open>{bookmarks: Bookmark[]}\<close>.
\<close>

theorem get_bookmarks_outcomes:
  "status (fst (get_bookmarks e req st)) = 401
   \<or> (\<exists>err. kv_failure e = Some err
          \<and> fst (get_bookmarks e req st)
              = json_status (Json_error_details ''Failed to fetch bookmarks'' (Kv_error err)) 500)
   \<or> (\<exists>bs. fst (get_bookmarks e req st) = json (Json_bookmarks bs))"
proof (cases "verified_user e req")
  case (Inl r)
  then show ?thesis
    by (simp add: get_bookmarks_def verified_user_denied)
next
  case (Inr uid)
  then show ?thesis
    by (cases "kv_failure e") (auto simp: get_bookmarks_def kv_getByPrefix_def Let_def)
qed

theorem get_bookmarks_outcomes_witness:
  "\<exists>bs. fst (get_bookmarks (example_env ''g1'' None) (bearer ''ta'' None) kv_empty)
            = json (Json_bookmarks bs)"
proof -
  have "verified_user (example_env ''g1'' None) (bearer ''ta'' None) = Inr ''a''"
    by (simp add: verified_user_iff example_tokens)
  then have "status (fst (get_bookmarks (example_env ''g1'' None) (bearer ''ta'' None) kv_empty)) = 200"
    by (simp add: get_bookmarks_def kv_getByPrefix_def Let_def json_def example_env_def)
  moreover have "kv_failure (example_env ''g1'' None) = None"
    by (simp add: example_env_def)
  ultimately show ?thesis
    using get_bookmarks_outcomes [of "example_env ''g1'' None" "bearer ''ta'' None" kv_empty]
    by auto
qed

section \<open>Storage keys\<close>

lemma set_update_subset: "set (AList.update k v al) \<subseteq> insert (k, v) (set al)"
  by (induction al) auto

lemma set_delete_subset: "set (AList.delete k al) \<subseteq> set al"
  by (induction al) auto

lemma key_agrees_serve: "key_agrees st \<Longrightarrow> key_agrees (snd (serve e rt req st))"
proof (cases rt)
  case GET_bookmarks
  assume "key_agrees st"
  then show ?thesis
    using GET_bookmarks
    by (auto simp: get_bookmarks_def kv_getByPrefix_def key_agrees_def Let_def
             split: sum.splits option.splits)
next
  case POST_bookmarks
  assume "key_agrees st"
  then show ?thesis
    using POST_bookmarks set_update_subset
    by (fastforce simp: post_bookmarks_def kv_set_def key_agrees_def Let_def bookmark_key_def
             split: sum.splits option.splits if_splits prod.splits)
next
  case (DELETE_bookmarks i)
  assume "key_agrees st"
  then show ?thesis
    using DELETE_bookmarks set_delete_subset
    by (fastforce simp: delete_bookmarks_def kv_del_def key_agrees_def Let_def
             split: sum.splits option.splits)
qed

lemma key_agrees_run: "key_agrees st \<Longrightarrow> key_agrees (run cs st)"
  by (induction cs st rule: run.induct) (simp_all add: key_agrees_serve)

text \<open>
  Claim C8. Every bookmark record written to storage sits under the key derived from
  its own fields, \<^verbatim>\<open>'bookmarks:' + userId + ':' + id\<close>: in the store reached from the empty
  store by any sequence of requests, whoever sends them and whatever they hold, the key
  of every row and the \<^verbatim>\<open>userId\<close> and \<^verbatim>\<open>id\<close> of its record agree.
\<close>

theorem stored_key_matches_record:
  "\<forall>(k, b) \<in> set (rows (run cs kv_empty)).
      k = ''bookmarks:'' @ userId b @ '':'' @ bookmark_id b
      \<and> k = bookmark_key (userId b) (bookmark_id b)"
proof -
  have "key_agrees (kv_empty :: store)"
    by (simp add: key_agrees_def kv_empty_def)
  then have "key_agrees (run cs kv_empty)"
    by (rule key_agrees_run)
  then show ?thesis
    by (auto simp: key_agrees_def bookmark_key_def)
qed

theorem stored_key_matches_record_witness:
  "rows (run [(example_env ''g1'' None, POST_bookmarks, bearer ''tb'' (Some example_body))] kv_empty)
     = [(''bookmarks:a:b:g1'', example_bookmark ''a:b'' ''g1'')]
   \<and> ''bookmarks:a:b:g1''
       = bookmark_key (userId (example_bookmark ''a:b'' ''g1''))
           (bookmark_id (example_bookmark ''a:b'' ''g1''))"
proof -
  let ?cs = "[(example_env ''g1'' None, POST_bookmarks, bearer ''tb'' (Some example_body))]"
  have v: "verified_user (example_env ''g1'' None) (bearer ''tb'' (Some example_body)) = Inr ''a:b''"
    by (simp add: verified_user_iff example_tokens)
  have r: "rows (run ?cs kv_empty) = [(''bookmarks:a:b:g1'', example_bookmark ''a:b'' ''g1'')]"
    using v
    by (simp add: post_bookmarks_def destructure_def example_body_def bearer_def kv_set_def
          Let_def kv_empty_def example_env_def example_bookmark_def bookmark_key_def)
  show ?thesis
    using r stored_key_matches_record [of ?cs]
    by (simp add: example_bookmark_def bookmark_key_def)
qed

section \<open>Isolation between users\<close>

lemma equal_length_prefix:
  assumes "length a = length b"
  shows "prefix (bookmarks_prefix b) (bookmark_key a i) \<longleftrightarrow> a = b"
proof
  assume "prefix (bookmarks_prefix b) (bookmark_key a i)"
  then obtain r where "a @ CHR '':'' # i = b @ CHR '':'' # r"
    by (auto simp: bookmarks_prefix_def bookmark_key_def prefix_def)
  with assms show "a = b"
    by simp
next
  assume "a = b"
  then show "prefix (bookmarks_prefix b) (bookmark_key a i)"
    by (simp add: bookmarks_prefix_def bookmark_key_def)
qed

lemma bookmark_key_inject:
  assumes "length a = length b"
  shows "bookmark_key a i = bookmark_key b j \<longleftrightarrow> a = b \<and> i = j"
  using assms by (simp add: bookmark_key_def)

lemma filter_delete_other:
  assumes "\<not> P k"
  shows "filter (\<lambda>(k', v). P k') (AList.delete k al) = filter (\<lambda>(k', v). P k') al"
  using assms by (induction al) auto

lemma delete_rows:
  "rows (snd (delete_bookmarks e i req st)) = rows st
   \<or> (\<exists>c. authenticated_as e req c
          \<and> rows (snd (delete_bookmarks e i req st)) = AList.delete (bookmark_key c i) (rows st))"
proof (cases "verified_user e req")
  case (Inl r)
  then show ?thesis by (simp add: delete_bookmarks_def)
next
  case (Inr c)
  then have "authenticated_as e req c"
    by (simp add: verified_user_iff)
  with Inr show ?thesis
    by (cases "kv_failure e") (auto simp: delete_bookmarks_def kv_del_def Let_def)
qed

lemma get_bookmarks_of_rows:
  assumes "authenticated_as e req u"
    and "filter (\<lambda>(k, v). prefix (bookmarks_prefix u) k) (rows st)
         = filter (\<lambda>(k, v). prefix (bookmarks_prefix u) k) (rows st')"
  shows "fst (get_bookmarks e req st) = fst (get_bookmarks e req st')"
proof -
  have "verified_user e req = Inr u"
    using assms(1) by (simp add: verified_user_iff)
  then show ?thesis
    using assms(2)
    by (cases "kv_failure e") (simp_all add: get_bookmarks_def kv_getByPrefix_def Let_def)
qed

lemma get_bookmarks_stored_for:
  assumes "authenticated_as e req u" and "kv_failure e = None"
  shows "fst (get_bookmarks e req st) = json (Json_bookmarks (stored_for u st))"
proof -
  have "verified_user e req = Inr u"
    using assms(1) by (simp add: verified_user_iff)
  with assms(2) show ?thesis
    by (simp add: get_bookmarks_def kv_getByPrefix_def Let_def stored_for_def)
qed

lemma get_bookmarks_failure:
  assumes "authenticated_as e req u" and "kv_failure e = Some err"
  shows "fst (get_bookmarks e req st)
       = json_status (Json_error_details ''Failed to fetch bookmarks'' (Kv_error err)) 500"
proof -
  have "verified_user e req = Inr u"
    using assms(1) by (simp add: verified_user_iff)
  with assms(2) show ?thesis
    by (simp add: get_bookmarks_def kv_getByPrefix_def Let_def)
qed

lemmas example_defs =
  verified_user_def accessToken_def unauthorized_def bearer_def example_env_def
  example_provider_def example_body_def example_bookmark_def destructure_def
  get_bookmarks_def post_bookmarks_def delete_bookmarks_def
  kv_set_def kv_del_def kv_getByPrefix_def kv_empty_def
  bookmarks_prefix_def bookmark_key_def json_def json_status_def Let_def

lemma example_trace_rows:
  "rows (run example_trace kv_empty) =
     [(''bookmarks:c:g2'', example_bookmark ''c'' ''g2''),
      (''bookmarks:a:g3'', example_bookmark ''a'' ''g3'')]"
  by (simp add: example_trace_def example_defs)

text \<open>
  Claim C3. For any two distinct users A and B and any client-supplied bookmark id, an
  arbitrary string, a Delete request authenticated as A removes no record stored under
  B's key prefix, and B's subsequent List is answered as it would have been without A's
  delete. The identifiers are those the identity provider issues, UUIDs, which all have
  one length; that the two identifiers have the same length is all the proof uses.
\<close>

theorem delete_keeps_other_users_list:
  assumes "authenticated_as eA reqA a" and "authenticated_as eB reqB b"
    and "a \<noteq> b" and "length a = length b"
  shows "filter (\<lambda>(k, v). prefix (bookmarks_prefix b) k) (rows (snd (delete_bookmarks eA i reqA st)))
       = filter (\<lambda>(k, v). prefix (bookmarks_prefix b) k) (rows st)
       \<and> fst (get_bookmarks eB reqB (snd (delete_bookmarks eA i reqA st)))
           = fst (get_bookmarks eB reqB st)"
proof -
  have same: "filter (\<lambda>(k, v). prefix (bookmarks_prefix b) k) (rows (snd (delete_bookmarks eA i reqA st)))
      = filter (\<lambda>(k, v). prefix (bookmarks_prefix b) k) (rows st)"
    using delete_rows [of eA i reqA st]
  proof
    assume "rows (snd (delete_bookmarks eA i reqA st)) = rows st"
    then show ?thesis by simp
  next
    assume "\<exists>c. authenticated_as eA reqA c
          \<and> rows (snd (delete_bookmarks eA i reqA st)) = AList.delete (bookmark_key c i) (rows st)"
    then obtain c where c: "authenticated_as eA reqA c"
      "rows (snd (delete_bookmarks eA i reqA st)) = AList.delete (bookmark_key c i) (rows st)"
      by blast
    from c(1) assms(1) have "c = a"
      by (rule authenticated_as_unique)
    moreover have "\<not> prefix (bookmarks_prefix b) (bookmark_key a i)"
      using assms(3,4) by (simp add: equal_length_prefix)
    ultimately show ?thesis
      using c(2) by (simp add: filter_delete_other)
  qed
  from assms(2) same
  have "fst (get_bookmarks eB reqB (snd (delete_bookmarks eA i reqA st)))
      = fst (get_bookmarks eB reqB st)"
    by (rule get_bookmarks_of_rows)
  with same show ?thesis
    by simp
qed

theorem delete_keeps_other_users_list_witness:
  "authenticated_as (example_env ''g6'' None) (bearer ''ta'' None) ''a''
   \<and> authenticated_as (example_env ''g7'' None) (bearer ''tc'' None) ''c''
   \<and> length ''a'' = length ''c''
   \<and> fst (get_bookmarks (example_env ''g7'' None) (bearer ''tc'' None)
            (snd (delete_bookmarks (example_env ''g6'' None) ''g2'' (bearer ''ta'' None)
                    (run example_trace kv_empty))))
       = json (Json_bookmarks [example_bookmark ''c'' ''g2''])"
proof -
  have a: "authenticated_as (example_env ''g6'' None) (bearer ''ta'' None) ''a''"
    and c: "authenticated_as (example_env ''g7'' None) (bearer ''tc'' None) ''c''"
    by (rule example_tokens)+
  have f: "kv_failure (example_env ''g7'' None) = None"
    by (simp add: example_env_def)
  have n: "''a'' \<noteq> ''c''" "length ''a'' = length ''c''"
    by simp_all
  have "fst (get_bookmarks (example_env ''g7'' None) (bearer ''tc'' None) (run example_trace kv_empty))
          = json (Json_bookmarks [example_bookmark ''c'' ''g2''])"
    using get_bookmarks_stored_for [OF c f, of "run example_trace kv_empty"] example_trace_rows
    by (simp add: stored_for_def bookmarks_prefix_def)
  then show ?thesis
    using a c n delete_keeps_other_users_list [OF a c n, of "''g2''" "run example_trace kv_empty"]
    by simp
qed

lemma update_fresh: "k \<notin> fst ` set al \<Longrightarrow> AList.update k v al = al @ [(k, v)]"
  by (induction al) auto

lemma serve_cases:
  "(created rt (fst (serve e rt req st)) = None \<and> deleted rt (fst (serve e rt req st)) = None
      \<and> rows (snd (serve e rt req st)) = rows st)
   \<or> (\<exists>c b. authenticated_as e req c \<and> created rt (fst (serve e rt req st)) = Some b
          \<and> userId b = c
          \<and> rows (snd (serve e rt req st))
              = AList.update (bookmark_key c (bookmark_id b)) b (rows st))
   \<or> (\<exists>c i. authenticated_as e req c \<and> created rt (fst (serve e rt req st)) = None
          \<and> deleted rt (fst (serve e rt req st)) = Some i
          \<and> rows (snd (serve e rt req st)) = AList.delete (bookmark_key c i) (rows st))"
proof (cases "verified_user e req")
  case (Inl r)
  then have "status r = 401"
    by (rule verified_user_denied)
  moreover have "payload r = Json_error ''No access token provided'' \<or> payload r = Json_error ''Unauthorized''"
    using Inl by (auto simp: verified_user_def json_status_def Let_def split: option.splits if_splits)
  ultimately show ?thesis
    using Inl
    by (cases rt) (auto simp: get_bookmarks_def post_bookmarks_def delete_bookmarks_def)
next
  case (Inr c)
  then have a: "authenticated_as e req c"
    by (simp add: verified_user_iff)
  show ?thesis
  proof (cases rt)
    case GET_bookmarks
    then show ?thesis
      using Inr
      by (cases "kv_failure e") (simp_all add: get_bookmarks_def kv_getByPrefix_def Let_def)
  next
    case POST_bookmarks
    then show ?thesis
      using Inr a
      by (cases "kv_failure e")
         (auto simp: post_bookmarks_def kv_set_def Let_def json_def json_status_def
               split: option.splits)
  next
    case (DELETE_bookmarks i)
    then show ?thesis
      using Inr a
      by (cases "kv_failure e")
         (auto simp: delete_bookmarks_def kv_del_def Let_def json_def json_status_def)
  qed
qed

lemma key_fresh:
  assumes "well_keyed n st" and "length c = n" and "g \<notin> set (stored_ids st)"
  shows "bookmark_key c g \<notin> fst ` set (rows st)"
proof
  assume "bookmark_key c g \<in> fst ` set (rows st)"
  then obtain b where b: "(bookmark_key c g, b) \<in> set (rows st)"
    by auto
  with assms(1) have "bookmark_key c g = bookmark_key (userId b) (bookmark_id b)"
    and "length (userId b) = n"
    by (auto simp: well_keyed_def)
  with assms(2) have "g = bookmark_id b"
    by (simp add: bookmark_key_inject)
  with b have "g \<in> set (stored_ids st)"
    by (force simp: stored_ids_def)
  with assms(3) show False by simp
qed

lemma stored_for_append:
  assumes "rows st' = rows st @ [(bookmark_key c g, b)]"
    and "length c = n" and "length u = n"
  shows "stored_for u st' = stored_for u st @ (if c = u then [b] else [])"
  using assms by (simp add: stored_for_def equal_length_prefix)

lemma stored_for_delete_other:
  assumes "rows st' = AList.delete (bookmark_key c i) (rows st)"
    and "length c = n" and "length u = n" and "c \<noteq> u"
  shows "stored_for u st' = stored_for u st"
  using assms by (simp add: stored_for_def equal_length_prefix filter_delete_other)

lemma filter_delete_own:
  assumes "\<forall>(k, b) \<in> set al. P k \<longrightarrow> (k = k0 \<longleftrightarrow> f b = i)"
  shows "map snd (filter (\<lambda>(k, v). P k) (AList.delete k0 al))
       = filter (\<lambda>b. f b \<noteq> i) (map snd (filter (\<lambda>(k, v). P k) al))"
  using assms by (induction al) auto

lemma stored_for_delete_own:
  assumes "well_keyed n st" and "length u = n"
    and "rows st' = AList.delete (bookmark_key u i) (rows st)"
  shows "stored_for u st' = filter (\<lambda>b. bookmark_id b \<noteq> i) (stored_for u st)"
proof -
  have "\<forall>(k, b) \<in> set (rows st).
          prefix (bookmarks_prefix u) k \<longrightarrow> (k = bookmark_key u i \<longleftrightarrow> bookmark_id b = i)"
  proof (clarify)
    fix k b
    assume kb: "(k, b) \<in> set (rows st)" and p: "prefix (bookmarks_prefix u) k"
    from kb assms(1) have k: "k = bookmark_key (userId b) (bookmark_id b)"
      and cf: "length (userId b) = n"
      by (auto simp: well_keyed_def)
    from p k cf assms(2) have "userId b = u"
      by (simp add: equal_length_prefix)
    with k assms(2) show "k = bookmark_key u i \<longleftrightarrow> bookmark_id b = i"
      by (simp add: bookmark_key_inject)
  qed
  then show ?thesis
    unfolding stored_for_def assms(3) by (rule filter_delete_own)
qed

lemma well_keyed_serve:
  assumes "well_keyed n st" and "\<forall>c. authenticated_as e req c \<longrightarrow> length c = n"
  shows "well_keyed n (snd (serve e rt req st))"
  using serve_cases [of rt e req st]
proof (elim disjE exE conjE)
  assume "rows (snd (serve e rt req st)) = rows st"
  with assms(1) show ?thesis by (simp add: well_keyed_def)
next
  fix c b
  assume "authenticated_as e req c" and "userId b = c"
    and r: "rows (snd (serve e rt req st)) = AList.update (bookmark_key c (bookmark_id b)) b (rows st)"
  with assms(2) have "length (userId b) = n" "bookmark_key c (bookmark_id b) = bookmark_key (userId b) (bookmark_id b)"
    by auto
  with assms(1) show ?thesis
    unfolding well_keyed_def r
    using set_update_subset [of "bookmark_key c (bookmark_id b)" b "rows st"]
    by auto
next
  fix c i
  assume "rows (snd (serve e rt req st)) = AList.delete (bookmark_key c i) (rows st)"
  with assms(1) show ?thesis
    unfolding well_keyed_def
    using set_delete_subset [of "bookmark_key c i" "rows st"]
    by auto
qed

lemma stored_for_serve:
  assumes wk: "well_keyed n st"
    and cf: "\<forall>c. authenticated_as e req c \<longrightarrow> length c = n"
    and u: "length u = n"
    and fresh: "\<forall>b. created rt (fst (serve e rt req st)) = Some b
                  \<longrightarrow> bookmark_id b \<notin> set (stored_ids st)"
  shows "stored_for u (snd (serve e rt req st))
       = (if authenticated_as e req u then
            (case created rt (fst (serve e rt req st)) of
               Some b \<Rightarrow> stored_for u st @ [b]
             | None \<Rightarrow>
                 (case deleted rt (fst (serve e rt req st)) of
                    Some i \<Rightarrow> filter (\<lambda>b. bookmark_id b \<noteq> i) (stored_for u st)
                  | None \<Rightarrow> stored_for u st))
          else stored_for u st)"
  using serve_cases [of rt e req st]
proof (elim disjE exE conjE)
  assume cr: "created rt (fst (serve e rt req st)) = None"
    and de: "deleted rt (fst (serve e rt req st)) = None"
    and "rows (snd (serve e rt req st)) = rows st"
  then have "stored_for u (snd (serve e rt req st)) = stored_for u st"
    by (simp add: stored_for_def)
  with cr de show ?thesis
    by simp
next
  fix c b
  assume a: "authenticated_as e req c"
    and cr: "created rt (fst (serve e rt req st)) = Some b"
    and "userId b = c"
    and r: "rows (snd (serve e rt req st)) = AList.update (bookmark_key c (bookmark_id b)) b (rows st)"
  from a cf have c: "length c = n"
    by simp
  from cr fresh have "bookmark_id b \<notin> set (stored_ids st)"
    by simp
  with wk c have "bookmark_key c (bookmark_id b) \<notin> fst ` set (rows st)"
    by (rule key_fresh)
  with r have "rows (snd (serve e rt req st)) = rows st @ [(bookmark_key c (bookmark_id b), b)]"
    by (simp add: update_fresh)
  from stored_for_append [OF this c u]
  have "stored_for u (snd (serve e rt req st)) = stored_for u st @ (if c = u then [b] else [])" .
  moreover have "authenticated_as e req u \<longleftrightarrow> c = u"
    using a authenticated_as_unique by blast
  ultimately show ?thesis
    using cr by simp
next
  fix c i
  assume a: "authenticated_as e req c"
    and cr: "created rt (fst (serve e rt req st)) = None"
    and de: "deleted rt (fst (serve e rt req st)) = Some i"
    and r: "rows (snd (serve e rt req st)) = AList.delete (bookmark_key c i) (rows st)"
  from a cf have c: "length c = n"
    by simp
  have au: "authenticated_as e req u \<longleftrightarrow> c = u"
    using a authenticated_as_unique by blast
  show ?thesis
  proof (cases "c = u")
    case True
    with wk u r have "stored_for u (snd (serve e rt req st))
        = filter (\<lambda>b. bookmark_id b \<noteq> i) (stored_for u st)"
      by (simp add: stored_for_delete_own)
    with True au cr de show ?thesis by simp
  next
    case False
    from stored_for_delete_other [OF r c u False] au False show ?thesis
      by simp
  qed
qed

lemma distinct_map_filter_append:
  "distinct (map f xs @ ys) \<Longrightarrow> distinct (map f (filter P xs) @ ys)"
  by (induction xs) auto

lemma stored_ids_serve:
  assumes wk: "well_keyed n st"
    and cf: "\<forall>c. authenticated_as e req c \<longrightarrow> length c = n"
    and d: "distinct (stored_ids st @
              (case created rt (fst (serve e rt req st)) of
                 Some b \<Rightarrow> bookmark_id b # rest
               | None \<Rightarrow> rest))"
  shows "distinct (stored_ids (snd (serve e rt req st)) @ rest)"
  using serve_cases [of rt e req st]
proof (elim disjE exE conjE)
  assume cr: "created rt (fst (serve e rt req st)) = None"
    and "rows (snd (serve e rt req st)) = rows st"
  then have "stored_ids (snd (serve e rt req st)) = stored_ids st"
    by (simp add: stored_ids_def)
  with cr d show ?thesis
    by simp
next
  fix c b
  assume a: "authenticated_as e req c"
    and cr: "created rt (fst (serve e rt req st)) = Some b"
    and r: "rows (snd (serve e rt req st)) = AList.update (bookmark_key c (bookmark_id b)) b (rows st)"
  from a cf have c: "length c = n"
    by simp
  from cr d have n: "bookmark_id b \<notin> set (stored_ids st)"
    by simp
  with wk c have "bookmark_key c (bookmark_id b) \<notin> fst ` set (rows st)"
    by (rule key_fresh)
  with r have "rows (snd (serve e rt req st)) = rows st @ [(bookmark_key c (bookmark_id b), b)]"
    by (simp add: update_fresh)
  then have "stored_ids (snd (serve e rt req st)) = stored_ids st @ [bookmark_id b]"
    by (simp add: stored_ids_def)
  with cr d show ?thesis
    by simp
next
  fix c i
  assume cr: "created rt (fst (serve e rt req st)) = None"
    and r: "rows (snd (serve e rt req st)) = AList.delete (bookmark_key c i) (rows st)"
  from cr d have "distinct (stored_ids st @ rest)"
    by simp
  then show ?thesis
    unfolding stored_ids_def r AList.delete_eq by (rule distinct_map_filter_append)
qed

lemma stored_for_run:
  assumes "well_keyed n st"
    and "\<forall>(e, rt, req) \<in> set cs. \<forall>c. authenticated_as e req c \<longrightarrow> length c = n"
    and "distinct (stored_ids st @ created_ids (responses cs st))"
    and "length u = n"
  shows "stored_for u (run cs st) = replay u (responses cs st) (stored_for u st)
       \<and> well_keyed n (run cs st)"
  using assms
proof (induction cs arbitrary: st)
  case Nil
  then show ?case by simp
next
  case (Cons x cs)
  obtain e rt req where x: "x = (e, rt, req)"
    by (cases x) auto
  let ?st' = "snd (serve e rt req st)"
  let ?r = "fst (serve e rt req st)"
  from Cons.prems(2) x have cf: "\<forall>c. authenticated_as e req c \<longrightarrow> length c = n"
    and cfs: "\<forall>(e, rt, req) \<in> set cs. \<forall>c. authenticated_as e req c \<longrightarrow> length c = n"
    by auto
  from Cons.prems(3) x
  have d: "distinct (stored_ids st @
              (case created rt ?r of
                 Some b \<Rightarrow> bookmark_id b # created_ids (responses cs ?st')
               | None \<Rightarrow> created_ids (responses cs ?st')))"
    by simp
  have wk': "well_keyed n ?st'"
    using Cons.prems(1) cf by (rule well_keyed_serve)
  have d': "distinct (stored_ids ?st' @ created_ids (responses cs ?st'))"
    using Cons.prems(1) cf d by (rule stored_ids_serve)
  have fresh: "\<forall>b. created rt ?r = Some b \<longrightarrow> bookmark_id b \<notin> set (stored_ids st)"
    using d by auto
  note step = stored_for_serve [OF Cons.prems(1) cf Cons.prems(4) fresh]
  from Cons.IH [OF wk' cfs d' Cons.prems(4)] step x show ?case
    by simp
qed

lemma stored_for_owner:
  assumes "well_keyed n st" and "length u = n" and "b \<in> set (stored_for u st)"
  shows "userId b = u"
proof -
  from assms(3) obtain k where kb: "(k, b) \<in> set (rows st)" and p: "prefix (bookmarks_prefix u) k"
    by (auto simp: stored_for_def)
  from kb assms(1) have "k = bookmark_key (userId b) (bookmark_id b)"
    and "length (userId b) = n"
    by (auto simp: well_keyed_def)
  with p assms(2) show ?thesis
    by (simp add: equal_length_prefix)
qed

text \<open>
  Claim C1. For every interleaving of create and delete requests of authenticated users
  (two distinct users, or any number), served one after the other from the empty store:
  the List of a caller returns exactly the set of bookmarks previously created and not
  deleted by that caller, and every bookmark it returns has the caller's \<^verbatim>\<open>userId\<close>, so
  none belongs to another user. When the storage read of the List fails, it returns no
  bookmark but the 500 failure. The identifiers of the users are those the identity
  provider issues, UUIDs, all of one length \<open>n\<close>, and those of the records are the values
  of \<^verbatim>\<open>crypto.randomUUID()\<close>, pairwise distinct.
\<close>

theorem list_returns_created_not_deleted:
  assumes "\<forall>(e, rt, req) \<in> set cs. \<forall>c. authenticated_as e req c \<longrightarrow> length c = n"
    and "distinct (created_ids (responses cs kv_empty))"
    and "authenticated_as e req u" and "length u = n"
  shows "case kv_failure e of
           None \<Rightarrow>
             (\<exists>bs. fst (get_bookmarks e req (run cs kv_empty)) = json (Json_bookmarks bs)
                 \<and> set bs = set (created_not_deleted u (responses cs kv_empty))
                 \<and> (\<forall>b \<in> set bs. userId b = u))
         | Some err \<Rightarrow>
             fst (get_bookmarks e req (run cs kv_empty))
               = json_status (Json_error_details ''Failed to fetch bookmarks'' (Kv_error err)) 500"
proof (cases "kv_failure e")
  case (Some err)
  with assms(3) show ?thesis
    by (simp add: get_bookmarks_failure)
next
  case None
  have wk: "well_keyed n (kv_empty :: store)"
    by (simp add: well_keyed_def kv_empty_def)
  have d: "distinct (stored_ids (kv_empty :: store) @ created_ids (responses cs kv_empty))"
    using assms(2) by (simp add: stored_ids_def kv_empty_def)
  have e: "stored_for u (kv_empty :: store) = []"
    by (simp add: stored_for_def kv_empty_def)
  from stored_for_run [OF wk assms(1) d assms(4)] e
  have s: "stored_for u (run cs kv_empty) = created_not_deleted u (responses cs kv_empty)"
    and wk': "well_keyed n (run cs kv_empty)"
    by (simp_all add: created_not_deleted_def)
  have "fst (get_bookmarks e req (run cs kv_empty))
          = json (Json_bookmarks (stored_for u (run cs kv_empty)))"
    using assms(3) None by (rule get_bookmarks_stored_for)
  moreover have "\<forall>b \<in> set (stored_for u (run cs kv_empty)). userId b = u"
    using wk' assms(4) stored_for_owner by blast
  ultimately show ?thesis
    using s None by auto
qed

theorem list_returns_created_not_deleted_witness:
  "distinct (created_ids (responses example_trace kv_empty))
   \<and> created_not_deleted ''a'' (responses example_trace kv_empty) = [example_bookmark ''a'' ''g3'']
   \<and> (\<exists>bs. fst (get_bookmarks (example_env ''g6'' None) (bearer ''ta'' None)
                 (run example_trace kv_empty)) = json (Json_bookmarks bs)
           \<and> set bs = {example_bookmark ''a'' ''g3''}
           \<and> (\<forall>b \<in> set bs. userId b = ''a''))"
proof -
  have u: "authenticated_as e (bearer ''ta'' x) c \<Longrightarrow> c = ''a''"
    "authenticated_as e (bearer ''tc'' x) c \<Longrightarrow> c = ''c''" if "getUser e = example_provider" for e x c
    using that by (auto simp: authenticated_as_def accessToken_def bearer_def example_provider_def
        split: option.splits if_splits)
  have g: "getUser (example_env i None) = example_provider" for i
    by (simp add: example_env_def)
  have cf: "\<forall>(e, rt, req) \<in> set example_trace.
              \<forall>c. authenticated_as e req c \<longrightarrow> length c = 1"
    using u g by (fastforce simp: example_trace_def)
  have r: "responses example_trace kv_empty =
            zip example_trace
              [json (Json_bookmark (example_bookmark ''a'' ''g1'')),
               json (Json_bookmark (example_bookmark ''c'' ''g2'')),
               json (Json_bookmark (example_bookmark ''a'' ''g3'')),
               json (Json_success True),
               json (Json_success True)]"
    by (simp add: example_trace_def example_defs)
  have d: "distinct (created_ids (responses example_trace kv_empty))"
    unfolding r by (simp add: example_trace_def json_def example_bookmark_def)
  have a: "authenticated_as (example_env ''g6'' None) (bearer ''ta'' None) ''a''"
    by (rule example_tokens)
  have n: "length ''a'' = 1"
    by simp
  have f: "kv_failure (example_env ''g6'' None) = None"
    by (simp add: example_env_def)
  have na: "\<not> authenticated_as (example_env i None) (bearer ''tc'' x) ''a''" for i x
    using u(2) [OF g] by fastforce
  have c: "created_not_deleted ''a'' (responses example_trace kv_empty) = [example_bookmark ''a'' ''g3'']"
    unfolding r
    by (simp add: created_not_deleted_def example_trace_def example_tokens na json_def
          example_bookmark_def)
  show ?thesis
    using d c f list_returns_created_not_deleted [OF cf d a n]
    by simp
qed

section \<open>Client state store\<close>

text \<open>
  Claim C7. For every bookmark list and every inbound Added event for the session's
  user: if the id of the event's bookmark is already in the list, applying the event
  leaves the list as it is; if it is absent, applying the event puts the bookmark at the
  front of the list. So applying the same Added event twice equals applying it once.
\<close>

theorem added_event_dedup:
  assumes "event_userId event = uid" and "event_type event = ''added''"
    and "event_bookmark event = Some b"
  shows "(if bookmark_id b \<in> bookmark_id ` set prev
          then on_broadcast uid event prev = prev
          else on_broadcast uid event prev = b # prev)
       \<and> on_broadcast uid event (on_broadcast uid event prev) = on_broadcast uid event prev"
proof -
  have ex: "list_ex (\<lambda>x. bookmark_id x = bookmark_id b) xs
              \<longleftrightarrow> bookmark_id b \<in> bookmark_id ` set xs" for xs
    unfolding list_ex_iff by (metis (no_types, lifting) image_iff)
  show ?thesis
    using assms by (simp add: on_broadcast_def ex)
qed

theorem added_event_dedup_witness:
  "event_userId example_added = ''a'' \<and> event_type example_added = ''added''
   \<and> on_broadcast ''a'' example_added [] = [example_bookmark ''a'' ''g1'']
   \<and> on_broadcast ''a'' example_added [example_bookmark ''a'' ''g1'']
       = [example_bookmark ''a'' ''g1'']"
proof -
  have h1: "event_userId example_added = ''a''"
    and h2: "event_type example_added = ''added''"
    and h3: "event_bookmark example_added = Some (example_bookmark ''a'' ''g1'')"
    by (simp_all add: example_added_def)
  show ?thesis
    using h1 h2 added_event_dedup [OF h1 h2 h3, of "[]"]
      added_event_dedup [OF h1 h2 h3, of "[example_bookmark ''a'' ''g1'']"]
    by simp
qed

text \<open>
  Claim C10. For every bookmark list and every inbound broadcast event that is not a
  well-formed sync event for the session's user (its \<^verbatim>\<open>userId\<close> differs from the session
  user's id, or its type is neither \<^verbatim>\<open>added\<close> nor \<^verbatim>\<open>deleted\<close>, or it is an \<^verbatim>\<open>added\<close> event
  with no bookmark, or a \<^verbatim>\<open>deleted\<close> event with no bookmarkId), applying the event leaves
  the list as it is.
\<close>

theorem ill_formed_event_ignored:
  assumes "event_userId event \<noteq> uid
         \<or> (event_type event \<noteq> ''added'' \<and> event_type event \<noteq> ''deleted'')
         \<or> (event_type event = ''added'' \<and> event_bookmark event = None)
         \<or> (event_type event = ''deleted'' \<and> event_bookmarkId event = None)"
  shows "on_broadcast uid event prev = prev"
  using assms by (auto simp: on_broadcast_def)

theorem ill_formed_event_ignored_witness:
  "event_userId example_added \<noteq> ''c''
   \<and> on_broadcast ''c'' example_added [] = []
   \<and> event_type example_renamed \<noteq> ''added'' \<and> event_type example_renamed \<noteq> ''deleted''
   \<and> on_broadcast ''a'' example_renamed [example_bookmark ''a'' ''g2'']
       = [example_bookmark ''a'' ''g2'']"
proof -
  have h1: "event_userId example_added \<noteq> ''c''"
    by (simp add: example_added_def)
  have h2: "event_type example_renamed \<noteq> ''added'' \<and> event_type example_renamed \<noteq> ''deleted''"
    by (simp add: example_renamed_def)
  show ?thesis
    using h1 h2 ill_formed_event_ignored [of example_added "''c''" "[]"]
      ill_formed_event_ignored [of example_renamed "''a''" "[example_bookmark ''a'' ''g2'']"]
    by blast
qed

end
